theory Spec2Isabelle
  imports
    Main
    "HOL-Library.Word"
    "HOL-Library.Sublist"
    "HOL-Library.Char_ord"
    "HOL-Library.List_Lexorder"
begin

unbundle bit_operations_syntax

section \<open>Go strings\<close>

text \<open>
  A Go string is a sequence of bytes, so it is a \<open>char list\<close> here. The functions of
  package \<open>strings\<close> that the sources call are modelled on ASCII text: the case mappings
  change the 26 letters and leave every other byte as it is (Go would also map letters
  outside ASCII), and \<open>TrimSpace\<close> cuts the six ASCII white-space bytes.
\<close>

definition lowerByte :: "char \<Rightarrow> char" where
  "lowerByte c =
     (case map_of (zip ''ABCDEFGHIJKLMNOPQRSTUVWXYZ'' ''abcdefghijklmnopqrstuvwxyz'') c of
        Some l \<Rightarrow> l
      | None \<Rightarrow> c)"

definition upperByte :: "char \<Rightarrow> char" where
  "upperByte c =
     (case map_of (zip ''abcdefghijklmnopqrstuvwxyz'' ''ABCDEFGHIJKLMNOPQRSTUVWXYZ'') c of
        Some u \<Rightarrow> u
      | None \<Rightarrow> c)"

definition ToLower :: "string \<Rightarrow> string" where
  "ToLower s = map lowerByte s"

definition ToUpper :: "string \<Rightarrow> string" where
  "ToUpper s = map upperByte s"

text \<open>\<open>strings.Contains(s, substr)\<close>: \<open>substr\<close> occurs in \<open>s\<close> as a contiguous run.\<close>

definition Contains :: "string \<Rightarrow> string \<Rightarrow> bool" where
  "Contains s substr = sublist substr s"

text \<open>\<open>strings.EqualFold\<close> on ASCII text: equal up to the case of letters.\<close>

definition EqualFold :: "string \<Rightarrow> string \<Rightarrow> bool" where
  "EqualFold s t = (ToLower s = ToLower t)"

definition isSpace :: "char \<Rightarrow> bool" where
  "isSpace c = (c \<in> set [CHR 0x09, CHR 0x0A, CHR 0x0B, CHR 0x0C, CHR 0x0D, CHR '' ''])"

definition TrimSpace :: "string \<Rightarrow> string" where
  "TrimSpace s = rev (dropWhile isSpace (rev (dropWhile isSpace s)))"

text \<open>
  \<open>strings.SplitN(s, sep, 2)\<close> for a separator of one byte: the text before the first
  separator and the text after it, or \<open>s\<close> alone when the separator does not occur.
\<close>

definition SplitN2 :: "string \<Rightarrow> char \<Rightarrow> string list" where
  "SplitN2 s sep =
     (if sep \<in> set s
      then [takeWhile (\<lambda>c. c \<noteq> sep) s, tl (dropWhile (\<lambda>c. c \<noteq> sep) s)]
      else [s])"

text \<open>The verb \<open>%d\<close> of package \<open>fmt\<close>: an integer in decimal.\<close>

definition digitChar :: "int \<Rightarrow> char" where
  "digitChar d = ''0123456789'' ! nat d"

function decDigits :: "int \<Rightarrow> string" where
  "decDigits n = (if n < 10 then [digitChar n] else decDigits (n div 10) @ [digitChar (n mod 10)])"
  by pat_completeness auto
termination
  by (relation "measure nat") auto

declare decDigits.simps [simp del]

definition fmt_d :: "int \<Rightarrow> string" where
  "fmt_d i = (if i < 0 then CHR ''-'' # decDigits (- i) else decDigits i)"


text \<open>
  \<open>strings.Replace(s, old, new, 1)\<close> for an \<open>old\<close> of one byte: the first occurrence is
  replaced, and \<open>s\<close> comes back unchanged when there is none.
\<close>

definition Replace1 :: "string \<Rightarrow> char \<Rightarrow> string \<Rightarrow> string" where
  "Replace1 s old new =
     (if old \<in> set s
      then takeWhile (\<lambda>c. c \<noteq> old) s @ new @ tl (dropWhile (\<lambda>c. c \<noteq> old) s)
      else s)"

section \<open>Package net/url: query values\<close>

text \<open>
  \<open>url.Values\<close> maps a key to its values; \<open>Set\<close> replaces the values of a key by one
  value, and \<open>Encode\<close> writes \<open>key=value\<close> pairs joined by \<open>&\<close>, sorted by key, both
  sides escaped by \<open>QueryEscape\<close>.
\<close>

type_synonym Values = "(string \<times> string list) list"

fun Values_Set :: "Values \<Rightarrow> string \<Rightarrow> string \<Rightarrow> Values" where
  "Values_Set [] k v = [(k, [v])]"
| "Values_Set ((k', vs) # q) k v =
     (if k' = k then (k, [v]) # q else (k', vs) # Values_Set q k v)"

definition unreserved :: "char \<Rightarrow> bool" where
  "unreserved c =
     (c \<in> set ''abcdefghijklmnopqrstuvwxyzABCDEFGHIJKLMNOPQRSTUVWXYZ0123456789-_.~'')"

definition upperhex :: "nat \<Rightarrow> char" where
  "upperhex n = ''0123456789ABCDEF'' ! n"

definition escapeByte :: "char \<Rightarrow> string" where
  "escapeByte c =
     (if unreserved c then [c]
      else if c = CHR '' '' then ''+''
      else [CHR ''%'', upperhex (of_char c div 16), upperhex (of_char c mod 16)])"

definition QueryEscape :: "string \<Rightarrow> string" where
  "QueryEscape s = concat (map escapeByte s)"

fun joinWith :: "string \<Rightarrow> string list \<Rightarrow> string" where
  "joinWith sep [] = []"
| "joinWith sep [x] = x"
| "joinWith sep (x # y # ys) = x @ sep @ joinWith sep (y # ys)"

definition Values_Encode :: "Values \<Rightarrow> string" where
  "Values_Encode q =
     joinWith ''&''
       (concat (map (\<lambda>(k, vs). map (\<lambda>v. QueryEscape k @ ''='' @ QueryEscape v) vs)
                    (sort_key fst q)))"

section \<open>float64\<close>

text \<open>
  Go's \<open>float64\<close> is IEEE 754 binary64. A finite value is \<open>Finite s m e\<close>, standing for
  \<open>(-1)^s * m * 2^e\<close> with \<open>m < 2^53\<close> and \<open>-1074 \<le> e \<le> 971\<close>; every operation rounds the
  exact result to the nearest such value, ties to the even significand.
\<close>

datatype float64 = Finite bool int int | Infinity bool | NaN

function bitlength :: "int \<Rightarrow> int" where
  "bitlength n = (if n \<le> 0 then 0 else 1 + bitlength (n div 2))"
  by pat_completeness auto
termination
  by (relation "measure nat") auto

declare bitlength.simps [simp del]

text \<open>
  \<open>round_f64 s p q\<close> is the float64 nearest to the rational \<open>(-1)^s * p / q\<close>, for
  \<open>0 \<le> p\<close> and \<open>0 < q\<close>: \<open>lg\<close> is the binary logarithm of \<open>p / q\<close> rounded down, \<open>e\<close> the
  exponent of the result before rounding, and \<open>n / d\<close> the significand to be rounded.
\<close>

definition round_f64 :: "bool \<Rightarrow> int \<Rightarrow> int \<Rightarrow> float64" where
  "round_f64 s p q =
     (if p = 0 then Finite s 0 (- 1074)
      else
        let k = bitlength p - bitlength q;
            lg = (if (if 0 \<le> k then q * 2 ^ nat k \<le> p else q \<le> p * 2 ^ nat (- k)) then k else k - 1);
            e = max (lg - 52) (- 1074);
            n = p * 2 ^ nat (- e);
            d = q * 2 ^ nat e;
            m0 = n div d;
            r = n mod d;
            m = (if d < 2 * r \<or> (2 * r = d \<and> odd m0) then m0 + 1 else m0);
            m' = (if m = 2 ^ 53 then 2 ^ 52 else m);
            e' = (if m = 2 ^ 53 then e + 1 else e)
        in if 971 < e' then Infinity s else Finite s m' e')"

definition f64_zero :: float64 where
  "f64_zero = Finite False 0 (- 1074)"

definition f64_of_int :: "int \<Rightarrow> float64" where
  "f64_of_int i = round_f64 (i < 0) \<bar>i\<bar> 1"

text \<open>The comparison \<open>x == 0\<close>: true of both zeros, false of \<open>NaN\<close>.\<close>

fun f64_is_zero :: "float64 \<Rightarrow> bool" where
  "f64_is_zero (Finite s m e) = (m = 0)"
| "f64_is_zero (Infinity s) = False"
| "f64_is_zero NaN = False"

fun f64_mul :: "float64 \<Rightarrow> float64 \<Rightarrow> float64" where
  "f64_mul NaN y = NaN"
| "f64_mul x NaN = NaN"
| "f64_mul (Infinity s) (Infinity t) = Infinity (s \<noteq> t)"
| "f64_mul (Infinity s) (Finite t m e) = (if m = 0 then NaN else Infinity (s \<noteq> t))"
| "f64_mul (Finite s m e) (Infinity t) = (if m = 0 then NaN else Infinity (s \<noteq> t))"
| "f64_mul (Finite s m e) (Finite t n f) =
     round_f64 (s \<noteq> t) (m * n * 2 ^ nat (e + f)) (2 ^ nat (- (e + f)))"

fun f64_div :: "float64 \<Rightarrow> float64 \<Rightarrow> float64" where
  "f64_div NaN y = NaN"
| "f64_div x NaN = NaN"
| "f64_div (Infinity s) (Infinity t) = NaN"
| "f64_div (Infinity s) (Finite t m e) = Infinity (s \<noteq> t)"
| "f64_div (Finite s m e) (Infinity t) = Finite (s \<noteq> t) 0 (- 1074)"
| "f64_div (Finite s m e) (Finite t n f) =
     (if n = 0 then (if m = 0 then NaN else Infinity (s \<noteq> t))
      else round_f64 (s \<noteq> t) (m * 2 ^ nat (e - f)) (n * 2 ^ nat (f - e)))"

section \<open>explorer.go: transactions, fees and labels\<close>

record ExplorerAppFee =
  FeeRecipient :: string
  Fee :: "64 word"

record ExplorerTx =
  DepositAddress :: string
  DepositMemo :: string
  Recipient :: string
  Status :: string
  AmountInFormatted :: string
  AmountOutFormatted :: string
  AmountInUsd :: float64
  AmountOutUsd :: float64
  OriginAsset :: string
  DestinationAsset :: string
  Senders :: "string list"
  NearTxHashes :: "string list"
  OriginChainTxHashes :: "string list"
  DestinationChainTxHashes :: "string list"
  AppFees :: "ExplorerAppFee list"
  CreatedAt :: string
  CreatedAtTimestamp :: "64 word"

record explorerPageResp =
  Transactions :: "ExplorerTx list"

text \<open>
  \<open>txFeeUSD\<close>: the loop adds the basis points in a Go \<open>int\<close> (64 bits, wrapping), then the
  fee is computed in float64, the product first and the quotient second.
\<close>

definition txFeeUSD :: "ExplorerTx \<Rightarrow> float64" where
  "txFeeUSD tx =
     (let bps = foldl (\<lambda>b f. b + Fee f) (0 :: 64 word) (AppFees tx) in
      if bps = 0 \<or> f64_is_zero (AmountInUsd tx) then f64_zero
      else f64_div (f64_mul (AmountInUsd tx) (f64_of_int (sint bps))) (f64_of_int 10000))"

record TokenInfo =
  Ticker :: string
  ChainName :: string

text \<open>
  \<open>explorerChainName\<close>: the chain codes and their display names, looked up by the
  lower-cased code, with the upper-cased code as the fallback.
\<close>

definition chainNames :: "(string \<times> string) list" where
  "chainNames =
     [(''eth'', ''Ethereum''), (''btc'', ''Bitcoin''), (''sol'', ''Solana''), (''base'', ''Base''),
      (''arb'', ''Arbitrum''), (''ton'', ''TON''), (''tron'', ''TRON''), (''trx'', ''TRON''),
      (''bsc'', ''BNB Chain''), (''pol'', ''Polygon''), (''op'', ''Optimism''),
      (''avax'', ''Avalanche''), (''near'', ''NEAR''), (''sui'', ''Sui''),
      (''doge'', ''Dogecoin''), (''ltc'', ''Litecoin''), (''xrp'', ''XRP''),
      (''bch'', ''Bitcoin Cash''), (''xlm'', ''Stellar''), (''nep141'', ''NEAR'')]"

definition explorerChainName :: "string \<Rightarrow> string" where
  "explorerChainName code =
     (case map_of chainNames (ToLower code) of
        Some dn \<Rightarrow> dn
      | None \<Rightarrow> ToUpper code)"

text \<open>
  \<open>findTokenByAssetID\<close> and the token table behind it are declared outside the files at
  hand; the lookup is the parameter \<open>findTok\<close>, with \<open>None\<close> for Go's \<open>nil\<close>. Of a token
  only the two fields read here are kept.
\<close>

definition txTokenLabel :: "(string \<Rightarrow> TokenInfo option) \<Rightarrow> string \<Rightarrow> string" where
  "txTokenLabel findTok assetID =
     (let parts = SplitN2 assetID (CHR '':'');
          derived =
            (if length parts = 2 \<and> ToUpper (parts ! 0) \<noteq> ''NEP141'' then ToUpper (parts ! 0)
             else if length parts = 2 then ToUpper (hd (SplitN2 (parts ! 1) (CHR ''.'')))
             else ToUpper assetID)
      in case findTok assetID of
           Some t \<Rightarrow> if Ticker t \<noteq> [] then Ticker t else derived
         | None \<Rightarrow> derived)"

definition txChainLabel :: "(string \<Rightarrow> TokenInfo option) \<Rightarrow> string \<Rightarrow> string" where
  "txChainLabel findTok assetID =
     (let parts = SplitN2 assetID (CHR '':'');
          derived = (if 1 \<le> length parts then explorerChainName (parts ! 0) else assetID)
      in case findTok assetID of
           Some t \<Rightarrow> if ChainName t \<noteq> [] then explorerChainName (ChainName t) else derived
         | None \<Rightarrow> derived)"

section \<open>explorer.go: the client of the Explorer API\<close>

text \<open>
  A Go \<open>error\<close> is its message. The network is outside the program: \<open>NewRequest\<close> gives
  the error of \<open>http.NewRequest\<close> for a URL, if any; \<open>RoundTrip n req\<close> is what
  \<open>explorerClient.Do\<close> returns for the request \<open>req\<close> when \<open>n\<close> requests have gone out
  before it; the \<open>Body\<close> of a response is what \<open>io.ReadAll\<close> makes of it; \<open>Unmarshal\<close> is
  \<open>json.Unmarshal\<close> into an \<open>explorerPageResp\<close>. The requests that went out are kept in
  a list, the oldest first, which every call returns extended.
\<close>

type_synonym error = string

record Request =
  URL :: string
  Header :: "(string \<times> string) list"

record Response =
  StatusCode :: int
  Body :: "error + string"

record env =
  explorerJWT :: string
  NewRequest :: "string \<Rightarrow> error option"
  RoundTrip :: "nat \<Rightarrow> Request \<Rightarrow> error + Response"
  Unmarshal :: "string \<Rightarrow> error + explorerPageResp"

definition explorerBaseURL :: string where
  "explorerBaseURL = ''https://explorer.near-intents.org/api''"

definition explorerGet :: "env \<Rightarrow> Request list \<Rightarrow> string \<Rightarrow> (error + string) \<times> Request list" where
  "explorerGet net sent endpoint =
     (case NewRequest net (explorerBaseURL @ endpoint) of
        Some err \<Rightarrow> (Inl err, sent)
      | None \<Rightarrow>
          (let req = \<lparr>URL = explorerBaseURL @ endpoint,
                      Header = (''Accept'', ''application/json'') #
                        (if explorerJWT net \<noteq> []
                         then [(''Authorization'', ''Bearer '' @ explorerJWT net)] else [])\<rparr>
           in case RoundTrip net (length sent) req of
                Inl err \<Rightarrow> (Inl err, sent @ [req])
              | Inr resp \<Rightarrow>
                  (case Body resp of
                     Inl err \<Rightarrow> (Inl err, sent @ [req])
                   | Inr data \<Rightarrow>
                       if StatusCode resp < 200 \<or> 300 \<le> StatusCode resp
                       then (Inl (''explorer '' @ fmt_d (StatusCode resp) @ '': '' @ data),
                             sent @ [req])
                       else (Inr data, sent @ [req]))))"

text \<open>The \<open>url.Values\<close> that \<open>fetchExplorerTxs\<close> builds before it calls \<open>explorerGet\<close>.\<close>

definition fetchExplorerTxs_query :: "string \<Rightarrow> string \<Rightarrow> string \<Rightarrow> 64 word \<Rightarrow> Values" where
  "fetchExplorerTxs_query affiliate lastAddr lastMemo count =
     (let q0 = Values_Set [] ''affiliate'' affiliate;
          q1 = Values_Set q0 ''statuses'' ''SUCCESS'';
          q2 = Values_Set q1 ''numberOfTransactions'' (fmt_d (sint count));
          q3 = Values_Set q2 ''direction'' ''next''
      in if lastAddr \<noteq> [] then
           (let q4 = Values_Set q3 ''lastDepositAddress'' lastAddr
            in if lastMemo \<noteq> [] then Values_Set q4 ''lastDepositMemo'' lastMemo else q4)
         else q3)"

definition fetchExplorerTxs ::
    "env \<Rightarrow> Request list \<Rightarrow> string \<Rightarrow> string \<Rightarrow> string \<Rightarrow> 64 word
      \<Rightarrow> (error + ExplorerTx list) \<times> Request list" where
  "fetchExplorerTxs net sent affiliate lastAddr lastMemo count =
     (let q = fetchExplorerTxs_query affiliate lastAddr lastMemo count
      in case explorerGet net sent (''/v0/transactions?'' @ Values_Encode q) of
           (Inl err, sent') \<Rightarrow> (Inl err, sent')
         | (Inr data, sent') \<Rightarrow>
             (case Unmarshal net data of
                Inl err \<Rightarrow> (Inl err, sent')
              | Inr r \<Rightarrow> (Inr (Transactions r), sent')))"

section \<open>wrapperpage.go: the filter of the log page\<close>

text \<open>
  Modelled from the spec: the type \<open>LogEntry\<close>, declared with the monitor and not among
  the source files: the name of the affiliate, the transaction and the fee computed for
  it. The field names are those that \<open>handleWrapperLogs\<close> reads.
\<close>

record LogEntry =
  Reseller :: string
  Tx :: ExplorerTx
  FeeUSD :: float64

text \<open>The loop over \<open>tx.NearTxHashes\<close> that sets \<open>hasHash\<close> and breaks at the first match.\<close>

fun hasHash :: "string \<Rightarrow> string list \<Rightarrow> bool" where
  "hasHash q [] = False"
| "hasHash q (h # hs) = (if Contains (ToLower h) q then True else hasHash q hs)"

text \<open>
  The closure \<open>filter\<close> of \<open>handleWrapperLogs\<close>, with the two request parameters it closes
  over: \<open>filterReseller\<close> as it arrives and \<open>query\<close> after \<open>TrimSpace\<close>.
\<close>

definition logFilter :: "(string \<Rightarrow> TokenInfo option) \<Rightarrow> string \<Rightarrow> string \<Rightarrow> LogEntry \<Rightarrow> bool" where
  "logFilter findTok filterReseller query e =
     (if filterReseller \<noteq> [] \<and> \<not> EqualFold (Reseller e) filterReseller then False
      else if query \<noteq> [] then
        (let q = ToLower query; tx = Tx e in
         if \<not> Contains (ToLower (Recipient tx)) q \<and>
            \<not> Contains (ToLower (DepositAddress tx)) q \<and>
            \<not> Contains (ToLower (txTokenLabel findTok (OriginAsset tx))) q \<and>
            \<not> Contains (ToLower (txTokenLabel findTok (DestinationAsset tx))) q \<and>
            \<not> Contains (ToLower (Reseller e)) q
         then (if \<not> hasHash q (NearTxHashes tx) then False else True)
         else True)
      else True)"

definition handleWrapperLogs_filter ::
    "(string \<Rightarrow> TokenInfo option) \<Rightarrow> string \<Rightarrow> string \<Rightarrow> LogEntry \<Rightarrow> bool" where
  "handleWrapperLogs_filter findTok q_param reseller_param =
     logFilter findTok reseller_param (TrimSpace q_param)"

section \<open>The notifier: time stamps and the chat description\<close>





text \<open>
  \<open>updateMainChatDescription\<close>. \<open>tgRequest\<close>, \<open>formatUSD\<close> and \<open>monitorTotalFeeUSD\<close> are
  declared outside the files at hand. The answer to \<open>getChat\<close> is the parameter \<open>chat\<close>:
  the error of \<open>tgRequest\<close>, or the error of decoding its result, or the description
  decoded. \<open>totalText\<close> is \<open>formatUSD(monitorTotalFeeUSD())\<close>. The result is the
  description handed to \<open>setChatDescription\<close>, \<open>None\<close> when the function returns before
  that call.
\<close>

definition updateMainChatDescription ::
    "64 word \<Rightarrow> string \<Rightarrow> string \<Rightarrow> error + (error + string) \<Rightarrow> string option" where
  "updateMainChatDescription monitorMainChatID tgBotToken totalText chat =
     (if monitorMainChatID = 0 \<or> tgBotToken = [] then None
      else case chat of
        Inl err \<Rightarrow> None
      | Inr (Inl err) \<Rightarrow> None
      | Inr (Inr description) \<Rightarrow>
          if description = [] then None
          else if \<not> Contains description ''$'' then None
          else Some (Replace1 description (CHR ''$'') totalText))"

text \<open>
  One call against a chat whose description is \<open>desc\<close>, when Telegram answers both
  requests: \<open>getChat\<close> returns \<open>desc\<close>, and \<open>setChatDescription\<close>, if it is called,
  replaces it.
\<close>

definition descriptionAfterUpdate :: "64 word \<Rightarrow> string \<Rightarrow> string \<Rightarrow> string \<Rightarrow> string" where
  "descriptionAfterUpdate monitorMainChatID tgBotToken totalText desc =
     (case updateMainChatDescription monitorMainChatID tgBotToken totalText (Inr (Inr desc)) of
        None \<Rightarrow> desc
      | Some newDesc \<Rightarrow> newDesc)"

section \<open>The monitor: log buffer, cursor and poller\<close>

text \<open>
  Modelled from the spec: the bounded log buffer (\<open>monitorLogBuf\<close>), of which the sources
  at hand only hold the call \<open>monitorLogBuf.snapshot(500, filter)\<close>. It has a fixed
  capacity and keeps its entries in the order of insertion, the oldest first; once the
  capacity is reached, an insert evicts the oldest entry.
\<close>

record 'e LogBuffer =
  capacity :: nat
  entries :: "'e list"

text \<open>Modelled from the spec: the empty log buffer of a given capacity.\<close>

definition newLogBuffer :: "nat \<Rightarrow> 'e LogBuffer" where
  "newLogBuffer cap = \<lparr>capacity = cap, entries = []\<rparr>"

text \<open>
  Modelled from the spec: \<open>append(entry)\<close> of the log buffer, which evicts the oldest
  entry when the buffer is at capacity.
\<close>

definition LogBuffer_append :: "'e LogBuffer \<Rightarrow> 'e \<Rightarrow> 'e LogBuffer" where
  "LogBuffer_append b e =
     (if capacity b \<le> length (entries b)
      then b\<lparr>entries := tl (entries b) @ [e]\<rparr>
      else b\<lparr>entries := entries b @ [e]\<rparr>)"

text \<open>
  Modelled from the spec: the loop of \<open>snapshot(limit, predicate)\<close> of the log buffer. It
  goes through the entries from the newest to the oldest, keeps those that satisfy the
  predicate, and stops when \<open>limit\<close> of them are collected or the buffer is exhausted.
\<close>

fun collect :: "nat \<Rightarrow> ('e \<Rightarrow> bool) \<Rightarrow> 'e list \<Rightarrow> 'e list" where
  "collect 0 p es = []"
| "collect (Suc n) p [] = []"
| "collect (Suc n) p (e # es) = (if p e then e # collect n p es else collect (Suc n) p es)"

text \<open>
  Modelled from the spec: the snapshot of the log buffer, the collection run from the
  newest entry.
\<close>

definition LogBuffer_snapshot :: "'e LogBuffer \<Rightarrow> nat \<Rightarrow> ('e \<Rightarrow> bool) \<Rightarrow> 'e list" where
  "LogBuffer_snapshot b limit p = collect limit p (rev (entries b))"

text \<open>
  Modelled from the spec: the cursor of an affiliate and the page fetch as the poller sees
  it. The cursor is the pair of deposit address and deposit memo of the last transaction
  processed, \<open>None\<close> when none is recorded. The feed is the list of the settled
  transactions of the affiliate in the pagination order of the API; a page is made of the
  first \<open>pageSize\<close> transactions strictly after the one the cursor names, and of the
  oldest ones for the empty cursor.
\<close>

type_synonym Cursor = "(string \<times> string) option"

text \<open>
  Modelled from the spec: the identity of a transaction within the history of an
  affiliate, its deposit address and deposit memo.
\<close>

definition txKey :: "ExplorerTx \<Rightarrow> string \<times> string" where
  "txKey tx = (DepositAddress tx, DepositMemo tx)"

text \<open>
  Modelled from the spec: the transactions of the feed strictly after the one that the
  cursor names.
\<close>

definition afterCursor :: "ExplorerTx list \<Rightarrow> Cursor \<Rightarrow> ExplorerTx list" where
  "afterCursor feed c =
     (case c of
        None \<Rightarrow> feed
      | Some k \<Rightarrow> drop 1 (dropWhile (\<lambda>tx. txKey tx \<noteq> k) feed))"

text \<open>Modelled from the spec: \<open>fetchPage(affiliateID, cursor, pageSize)\<close> when it succeeds.\<close>

definition fetchPage :: "ExplorerTx list \<Rightarrow> Cursor \<Rightarrow> nat \<Rightarrow> ExplorerTx list" where
  "fetchPage feed c pageSize = take pageSize (afterCursor feed c)"

text \<open>
  Modelled from the spec: the state that the poller of one affiliate works on. \<open>cursor\<close>
  is what the cursor store holds; \<open>aggregated\<close> lists the transactions handed to
  \<open>record\<close> of the live stats aggregator so far, in order (its three counters are the two
  sums over this list and its length); \<open>logbuf\<close> is the log buffer.
\<close>

record PollerState =
  cursor :: Cursor
  aggregated :: "ExplorerTx list"
  logbuf :: "LogEntry LogBuffer"

text \<open>
  Modelled from the spec: the state at the first start, with no cursor recorded, nothing
  aggregated and an empty log buffer.
\<close>

definition initialState :: "nat \<Rightarrow> PollerState" where
  "initialState cap = \<lparr>cursor = None, aggregated = [], logbuf = newLogBuffer cap\<rparr>"

text \<open>
  Modelled from the spec: the log entry of a transaction in step 4 of the poller. The fee
  is computed, the transaction is recorded into the aggregator and appended to the log
  buffer with the name of the affiliate and the fee. The notifier is left out: its
  failures are swallowed and it changes none of the three.
\<close>

definition logEntryOf :: "string \<Rightarrow> ExplorerTx \<Rightarrow> LogEntry" where
  "logEntryOf name tx = \<lparr>Reseller = name, Tx = tx, FeeUSD = txFeeUSD tx\<rparr>"

text \<open>Modelled from the spec: the commit of one transaction, step 4 of the poller.\<close>

definition commitTx :: "string \<Rightarrow> PollerState \<Rightarrow> ExplorerTx \<Rightarrow> PollerState" where
  "commitTx name st tx =
     st\<lparr>aggregated := aggregated st @ [tx],
        logbuf := LogBuffer_append (logbuf st) (logEntryOf name tx)\<rparr>"

text \<open>
  Modelled from the spec: steps 1 to 5 of the poller for one page, with what can happen
  to it. The fetch fails, and nothing changes. Or the page is fetched and, when it is not
  empty, every transaction of it is committed in page order and then the cursor store is
  asked to advance to the last transaction of the page, which persists or fails; when it
  fails the cursor stays. Or the process is stopped after it has committed the first \<open>j\<close>
  transactions of the page, before the cursor is advanced. A cycle of the poller, and any
  number of cycles and restarts, is a sequence of such steps.
\<close>

datatype pageOutcome = FetchFailed | Advanced bool | Interrupted nat

text \<open>Modelled from the spec: one page step of the poller, by its outcome.\<close>

definition pollPage ::
    "string \<Rightarrow> ExplorerTx list \<Rightarrow> nat \<Rightarrow> PollerState \<Rightarrow> pageOutcome \<Rightarrow> PollerState" where
  "pollPage name feed pageSize st out =
     (let page = fetchPage feed (cursor st) pageSize in
      case out of
        FetchFailed \<Rightarrow> st
      | Interrupted j \<Rightarrow> foldl (commitTx name) st (take j page)
      | Advanced persisted \<Rightarrow>
          if page = [] then st
          else (let st' = foldl (commitTx name) st page in
                if persisted then st'\<lparr>cursor := Some (txKey (last page))\<rparr> else st'))"

text \<open>Modelled from the spec: a sequence of page steps of the poller.\<close>

definition pollRun ::
    "string \<Rightarrow> ExplorerTx list \<Rightarrow> nat \<Rightarrow> PollerState \<Rightarrow> pageOutcome list \<Rightarrow> PollerState" where
  "pollRun name feed pageSize st outs = foldl (pollPage name feed pageSize) st outs"

section \<open>Notions of the specification\<close>


text \<open>The prefix of an asset identifier before its first colon, and the rest after it.\<close>

definition assetPrefix :: "string \<Rightarrow> string" where
  "assetPrefix assetID = takeWhile (\<lambda>c. c \<noteq> CHR '':'') assetID"

definition assetRest :: "string \<Rightarrow> string" where
  "assetRest assetID = tl (dropWhile (\<lambda>c. c \<noteq> CHR '':'') assetID)"

text \<open>The texts of a log entry in which the filter of the log page looks for the query.\<close>

definition searchedTexts :: "(string \<Rightarrow> TokenInfo option) \<Rightarrow> LogEntry \<Rightarrow> string list" where
  "searchedTexts findTok e =
     [Recipient (Tx e), DepositAddress (Tx e), txTokenLabel findTok (OriginAsset (Tx e)),
      txTokenLabel findTok (DestinationAsset (Tx e)), Reseller e] @ NearTxHashes (Tx e)"

text \<open>
  The request that \<open>fetchExplorerTxs\<close> sends, and the three ways in which a fetch can
  fail: the request fails (it cannot be built, the round trip fails, or the body cannot
  be read), the status is not a 2xx one, the body does not decode.
\<close>

definition fetchRequest :: "env \<Rightarrow> string \<Rightarrow> string \<Rightarrow> string \<Rightarrow> 64 word \<Rightarrow> Request" where
  "fetchRequest net affiliate lastAddr lastMemo count =
     \<lparr>URL = explorerBaseURL @ ''/v0/transactions?'' @
              Values_Encode (fetchExplorerTxs_query affiliate lastAddr lastMemo count),
      Header = (''Accept'', ''application/json'') #
               (if explorerJWT net \<noteq> [] then [(''Authorization'', ''Bearer '' @ explorerJWT net)]
                else [])\<rparr>"

definition httpRequestFails :: "env \<Rightarrow> nat \<Rightarrow> Request \<Rightarrow> bool" where
  "httpRequestFails net n req =
     (case NewRequest net (URL req) of
        Some err \<Rightarrow> True
      | None \<Rightarrow> (case RoundTrip net n req of Inl err \<Rightarrow> True | Inr resp \<Rightarrow> isl (Body resp)))"

definition statusOutside2xx :: "env \<Rightarrow> nat \<Rightarrow> Request \<Rightarrow> bool" where
  "statusOutside2xx net n req =
     (case RoundTrip net n req of
        Inl err \<Rightarrow> False
      | Inr resp \<Rightarrow> StatusCode resp < 200 \<or> 300 \<le> StatusCode resp)"

definition bodyNotParseable :: "env \<Rightarrow> nat \<Rightarrow> Request \<Rightarrow> bool" where
  "bodyNotParseable net n req =
     (case RoundTrip net n req of
        Inl err \<Rightarrow> False
      | Inr resp \<Rightarrow> (case Body resp of Inl err \<Rightarrow> False | Inr data \<Rightarrow> isl (Unmarshal net data)))"






text \<open>The number of transactions of the feed that are at or before the cursor.\<close>

definition cursorPos :: "ExplorerTx list \<Rightarrow> Cursor \<Rightarrow> nat" where
  "cursorPos feed c = length feed - length (afterCursor feed c)"

section \<open>Example inputs\<close>

text \<open>A swap of 100 USD with fees of 30 and 20 basis points.\<close>

definition feeExampleTx :: ExplorerTx where
  "feeExampleTx =
     \<lparr>DepositAddress = ''0xd1'', DepositMemo = '''', Recipient = ''TQ5'', Status = ''SUCCESS'',
      AmountInFormatted = ''100'', AmountOutFormatted = ''99.5'',
      AmountInUsd = f64_of_int 100, AmountOutUsd = f64_of_int 99,
      OriginAsset = ''eth:0xabc'', DestinationAsset = ''tron:usdt'',
      Senders = [], NearTxHashes = [], OriginChainTxHashes = [], DestinationChainTxHashes = [],
      AppFees = [\<lparr>FeeRecipient = ''eagle'', Fee = 30\<rparr>, \<lparr>FeeRecipient = ''uswap'', Fee = 20\<rparr>],
      CreatedAt = '''', CreatedAtTimestamp = 0\<rparr>"

text \<open>The same swap with a status that is not the one asked for.\<close>

definition failedTx :: ExplorerTx where
  "failedTx = feeExampleTx\<lparr>Status := ''FAILED''\<rparr>"

text \<open>
  Three servers: one answers with a transaction that did not succeed, one with a
  transaction that did, one with status 500.
\<close>

definition okResponse :: Response where
  "okResponse = \<lparr>StatusCode = 200, Body = Inr ''{}''\<rparr>"

definition unfilteredServer :: env where
  "unfilteredServer =
     \<lparr>explorerJWT = '''', NewRequest = (\<lambda>u. None), RoundTrip = (\<lambda>n req. Inr okResponse),
      Unmarshal = (\<lambda>data. Inr \<lparr>Transactions = [failedTx]\<rparr>)\<rparr>"

definition filteringServer :: env where
  "filteringServer =
     \<lparr>explorerJWT = '''', NewRequest = (\<lambda>u. None), RoundTrip = (\<lambda>n req. Inr okResponse),
      Unmarshal = (\<lambda>data. Inr \<lparr>Transactions = [feeExampleTx]\<rparr>)\<rparr>"

definition brokenServer :: env where
  "brokenServer =
     \<lparr>explorerJWT = ''jwt'', NewRequest = (\<lambda>u. None),
      RoundTrip = (\<lambda>n req. Inr \<lparr>StatusCode = 500, Body = Inr ''oops''\<rparr>),
      Unmarshal = (\<lambda>data. Inl ''invalid character'')\<rparr>"

text \<open>
  A token table that knows USDT on TRON, and four log entries: the destination is that
  known token; an origin-chain hash is recorded; the destination is an unknown asset
  with the prefix \<open>tron\<close>; the destination is on Ethereum.
\<close>

definition exampleTokens :: "string \<Rightarrow> TokenInfo option" where
  "exampleTokens =
     map_of [(''nep141:tron-d28a265909efecdcee7c5028585214ea0b96f015.omft.near'',
              \<lparr>Ticker = ''USDT'', ChainName = ''tron''\<rparr>)]"

definition knownTronEntry :: LogEntry where
  "knownTronEntry =
     \<lparr>Reseller = ''EagleSwap'',
      Tx = feeExampleTx\<lparr>DestinationAsset :=
             ''nep141:tron-d28a265909efecdcee7c5028585214ea0b96f015.omft.near''\<rparr>,
      FeeUSD = f64_zero\<rparr>"

definition originHashEntry :: LogEntry where
  "originHashEntry =
     \<lparr>Reseller = ''EagleSwap'',
      Tx = feeExampleTx\<lparr>DestinationAsset := ''eth:0xdac'', OriginChainTxHashes := [''0xfeed'']\<rparr>,
      FeeUSD = f64_zero\<rparr>"

definition tronEntry :: LogEntry where
  "tronEntry = \<lparr>Reseller = ''EagleSwap'', Tx = feeExampleTx, FeeUSD = f64_zero\<rparr>"

definition ethereumEntry :: LogEntry where
  "ethereumEntry =
     \<lparr>Reseller = ''EagleSwap'', Tx = feeExampleTx\<lparr>DestinationAsset := ''eth:0xdac''\<rparr>,
      FeeUSD = f64_zero\<rparr>"

text \<open>A feed of three transactions, told apart by their deposit addresses.\<close>

definition feedTx :: "string \<Rightarrow> ExplorerTx" where
  "feedTx addr = feeExampleTx\<lparr>DepositAddress := addr\<rparr>"

definition exampleFeed :: "ExplorerTx list" where
  "exampleFeed = [feedTx ''d1'', feedTx ''d2'', feedTx ''d3'']"

section \<open>Fees\<close>









section \<open>The client of the Explorer API\<close>

lemma query_no_cursor:
  "fetchExplorerTxs_query affiliate [] lastMemo count =
     [(''affiliate'', [affiliate]), (''statuses'', [''SUCCESS'']),
      (''numberOfTransactions'', [fmt_d (sint count)]), (''direction'', [''next''])]"
  by (simp add: fetchExplorerTxs_query_def)

lemma encode_no_cursor:
  "Values_Encode (fetchExplorerTxs_query affiliate [] lastMemo count) =
     ''affiliate='' @ QueryEscape affiliate @ ''&direction=next&numberOfTransactions='' @
     QueryEscape (fmt_d (sint count)) @ ''&statuses=SUCCESS''"
  by (simp add: query_no_cursor Values_Encode_def QueryEscape_def escapeByte_def unreserved_def)

lemma query_statuses:
  "map_of (fetchExplorerTxs_query affiliate lastAddr lastMemo count) ''statuses'' = Some [''SUCCESS'']"
  by (simp add: fetchExplorerTxs_query_def Let_def)

lemma explorerGet_sent:
  "snd (explorerGet net sent endpoint) =
     (if NewRequest net (explorerBaseURL @ endpoint) = None
      then sent @ [\<lparr>URL = explorerBaseURL @ endpoint,
                     Header = (''Accept'', ''application/json'') #
                       (if explorerJWT net \<noteq> []
                        then [(''Authorization'', ''Bearer '' @ explorerJWT net)] else [])\<rparr>]
      else sent)"
  by (simp add: explorerGet_def Let_def split: option.splits sum.splits)

lemma fetchExplorerTxs_sent:
  "snd (fetchExplorerTxs net sent affiliate lastAddr lastMemo count) =
     (if NewRequest net (URL (fetchRequest net affiliate lastAddr lastMemo count)) = None
      then sent @ [fetchRequest net affiliate lastAddr lastMemo count]
      else sent)"
proof -
  have "snd (fetchExplorerTxs net sent affiliate lastAddr lastMemo count) =
        snd (explorerGet net sent (''/v0/transactions?'' @
               Values_Encode (fetchExplorerTxs_query affiliate lastAddr lastMemo count)))"
    by (simp add: fetchExplorerTxs_def Let_def split: prod.splits sum.splits)
  then show ?thesis
    by (simp add: explorerGet_sent fetchRequest_def)
qed

lemma fetchExplorerTxs_result:
  "fst (fetchExplorerTxs net sent affiliate lastAddr lastMemo count) =
     (let req = fetchRequest net affiliate lastAddr lastMemo count in
      case NewRequest net (URL req) of
        Some err \<Rightarrow> Inl err
      | None \<Rightarrow>
          (case RoundTrip net (length sent) req of
             Inl err \<Rightarrow> Inl err
           | Inr resp \<Rightarrow>
               (case Body resp of
                  Inl err \<Rightarrow> Inl err
                | Inr data \<Rightarrow>
                    if StatusCode resp < 200 \<or> 300 \<le> StatusCode resp
                    then Inl (''explorer '' @ fmt_d (StatusCode resp) @ '': '' @ data)
                    else (case Unmarshal net data of
                            Inl err \<Rightarrow> Inl err
                          | Inr r \<Rightarrow> Inr (Transactions r)))))"
  by (simp add: fetchExplorerTxs_def explorerGet_def fetchRequest_def Let_def
           split: option.splits sum.splits)

lemma fmt_d_500: "fmt_d 500 = ''500''"
  by code_simp

text \<open>
  C4, as the code has it. Every query asks for the status \<open>SUCCESS\<close>, and a list that
  \<open>fetchExplorerTxs\<close> returns is the list decoded from the body of the response, as it
  is: the statuses of the records are not looked at.
\<close>

theorem fetchExplorerTxs_status_requested:
  "map_of (fetchExplorerTxs_query affiliate lastAddr lastMemo count) ''statuses'' = Some [''SUCCESS''] \<and>
   (\<forall>txs. fst (fetchExplorerTxs net sent affiliate lastAddr lastMemo count) = Inr txs \<longrightarrow>
      (\<exists>resp data r.
         RoundTrip net (length sent) (fetchRequest net affiliate lastAddr lastMemo count) = Inr resp \<and>
         Body resp = Inr data \<and> Unmarshal net data = Inr r \<and> txs = Transactions r))"
  by (auto simp: query_statuses fetchExplorerTxs_result Let_def
           split: option.splits sum.splits if_splits)

theorem fetchExplorerTxs_status_requested_witness:
  "fst (fetchExplorerTxs filteringServer [] ''eagle'' [] [] 100) = Inr [feeExampleTx] \<and>
   (\<exists>resp data r.
      RoundTrip filteringServer 0 (fetchRequest filteringServer ''eagle'' [] [] 100) = Inr resp \<and>
      Body resp = Inr data \<and> Unmarshal filteringServer data = Inr r \<and>
      [feeExampleTx] = Transactions r)"
proof -
  have r: "fst (fetchExplorerTxs filteringServer [] ''eagle'' [] [] 100) = Inr [feeExampleTx]"
    by (simp add: fetchExplorerTxs_result Let_def filteringServer_def okResponse_def)
  with fetchExplorerTxs_status_requested [of "''eagle''" "[]" "[]" 100 filteringServer "[]"]
  show ?thesis by simp
qed

text \<open>
  C4, as the claim has it, fails: when the server answers with a record whose status is
  \<open>FAILED\<close>, that record is returned.
\<close>

theorem fetchExplorerTxs_unvalidated_counterexample:
  "fst (fetchExplorerTxs unfilteredServer [] ''eagle'' [] [] 100) = Inr [failedTx] \<and>
   Status failedTx = ''FAILED''"
  by (simp add: fetchExplorerTxs_result Let_def unfilteredServer_def okResponse_def failedTx_def)

text \<open>
  C5. \<open>fetchExplorerTxs\<close> returns an error exactly when the request fails, the status is
  outside 200..299, or the body does not decode. Whatever happens, at most the one
  request goes out (none when it cannot be built), so nothing is tried again. The error
  returned is the one of the step that failed, as it is; for a status outside 2xx it
  is a new error that carries the status and the body.
\<close>

theorem fetchExplorerTxs_errors:
  "(let req = fetchRequest net affiliate lastAddr lastMemo count;
        R = fetchExplorerTxs net sent affiliate lastAddr lastMemo count
    in (isl (fst R) \<longleftrightarrow>
          httpRequestFails net (length sent) req \<or> statusOutside2xx net (length sent) req \<or>
          bodyNotParseable net (length sent) req) \<and>
       snd R = (if NewRequest net (URL req) = None then sent @ [req] else sent) \<and>
       (\<forall>e. NewRequest net (URL req) = Some e \<longrightarrow> fst R = Inl e) \<and>
       (NewRequest net (URL req) = None \<longrightarrow>
          (\<forall>e. RoundTrip net (length sent) req = Inl e \<longrightarrow> fst R = Inl e) \<and>
          (\<forall>resp. RoundTrip net (length sent) req = Inr resp \<longrightarrow>
             (\<forall>e. Body resp = Inl e \<longrightarrow> fst R = Inl e) \<and>
             (\<forall>data. Body resp = Inr data \<longrightarrow>
                (StatusCode resp < 200 \<or> 300 \<le> StatusCode resp \<longrightarrow>
                   fst R = Inl (''explorer '' @ fmt_d (StatusCode resp) @ '': '' @ data)) \<and>
                (200 \<le> StatusCode resp \<and> StatusCode resp < 300 \<longrightarrow>
                   (\<forall>e. Unmarshal net data = Inl e \<longrightarrow> fst R = Inl e))))))"
  unfolding Let_def
proof (intro conjI)
  show "isl (fst (fetchExplorerTxs net sent affiliate lastAddr lastMemo count)) \<longleftrightarrow>
          httpRequestFails net (length sent) (fetchRequest net affiliate lastAddr lastMemo count) \<or>
          statusOutside2xx net (length sent) (fetchRequest net affiliate lastAddr lastMemo count) \<or>
          bodyNotParseable net (length sent) (fetchRequest net affiliate lastAddr lastMemo count)"
    by (simp add: fetchExplorerTxs_result httpRequestFails_def statusOutside2xx_def
          bodyNotParseable_def Let_def split: option.splits sum.splits)
qed (simp_all add: fetchExplorerTxs_sent fetchExplorerTxs_result Let_def)

text \<open>A server that answers 500 with the body \<open>oops\<close>: one request, one error.\<close>

theorem fetchExplorerTxs_errors_witness:
  "statusOutside2xx brokenServer 0 (fetchRequest brokenServer ''eagle'' [] [] 100) \<and>
   fst (fetchExplorerTxs brokenServer [] ''eagle'' [] [] 100) = Inl ''explorer 500: oops'' \<and>
   length (snd (fetchExplorerTxs brokenServer [] ''eagle'' [] [] 100)) = 1"
  using fetchExplorerTxs_errors [of brokenServer "''eagle''" "[]" "[]" 100 "[]"]
  by (simp add: Let_def brokenServer_def fmt_d_500 statusOutside2xx_def)

text \<open>
  C9. With an empty cursor address the query has the four fixed keys only, whatever the
  cursor memo is, and the URL of the request that goes out is the base URL, the path and
  these four parameters.
\<close>

theorem fetchExplorerTxs_empty_cursor:
  "map fst (fetchExplorerTxs_query affiliate [] lastMemo count) =
     [''affiliate'', ''statuses'', ''numberOfTransactions'', ''direction''] \<and>
   map URL (snd (fetchExplorerTxs net sent affiliate [] lastMemo count)) =
     map URL sent @
     (if NewRequest net (URL (fetchRequest net affiliate [] lastMemo count)) = None
      then [explorerBaseURL @ ''/v0/transactions?affiliate='' @ QueryEscape affiliate @
            ''&direction=next&numberOfTransactions='' @ QueryEscape (fmt_d (sint count)) @
            ''&statuses=SUCCESS'']
      else [])"
proof
  show "map fst (fetchExplorerTxs_query affiliate [] lastMemo count) =
          [''affiliate'', ''statuses'', ''numberOfTransactions'', ''direction'']"
    by (simp add: query_no_cursor)
next
  have "URL (fetchRequest net affiliate [] lastMemo count) =
          explorerBaseURL @ ''/v0/transactions?affiliate='' @ QueryEscape affiliate @
          ''&direction=next&numberOfTransactions='' @ QueryEscape (fmt_d (sint count)) @
          ''&statuses=SUCCESS''"
    by (simp add: fetchRequest_def encode_no_cursor)
  then show "map URL (snd (fetchExplorerTxs net sent affiliate [] lastMemo count)) =
     map URL sent @
     (if NewRequest net (URL (fetchRequest net affiliate [] lastMemo count)) = None
      then [explorerBaseURL @ ''/v0/transactions?affiliate='' @ QueryEscape affiliate @
            ''&direction=next&numberOfTransactions='' @ QueryEscape (fmt_d (sint count)) @
            ''&statuses=SUCCESS'']
      else [])"
    by (simp add: fetchExplorerTxs_sent)
qed

text \<open>A cursor memo without a cursor address: the URL carries neither.\<close>

theorem fetchExplorerTxs_empty_cursor_witness:
  "map URL (snd (fetchExplorerTxs filteringServer [] ''eagle'' [] ''memo-7'' 100)) =
     [''https://explorer.near-intents.org/api/v0/transactions?affiliate=eagle&direction=next&numberOfTransactions=100&statuses=SUCCESS'']"
proof -
  have n: "NewRequest filteringServer u = None" for u
    by (simp add: filteringServer_def)
  have a: "QueryEscape ''eagle'' = ''eagle''"
    by code_simp
  have c: "QueryEscape (fmt_d (sint (100 :: 64 word))) = ''100''"
    by code_simp
  from fetchExplorerTxs_empty_cursor [of "''eagle''" "''memo-7''" 100 filteringServer "[]"]
  have "map URL (snd (fetchExplorerTxs filteringServer [] ''eagle'' [] ''memo-7'' 100)) =
          [explorerBaseURL @ ''/v0/transactions?affiliate='' @ QueryEscape ''eagle'' @
           ''&direction=next&numberOfTransactions='' @
           QueryEscape (fmt_d (sint (100 :: 64 word))) @ ''&statuses=SUCCESS'']"
    by (simp add: n)
  then show ?thesis
    by (simp only: a c explorerBaseURL_def) simp
qed

section \<open>Labels\<close>

lemma takeWhile_absent: "x \<notin> set xs \<Longrightarrow> takeWhile (\<lambda>c. c \<noteq> x) xs = xs"
  by (induction xs) auto

lemma SplitN2_colon:
  "SplitN2 a (CHR '':'') =
     (if CHR '':'' \<in> set a then [assetPrefix a, assetRest a] else [a])"
  by (simp add: SplitN2_def assetPrefix_def assetRest_def)

lemma assetPrefix_no_colon: "CHR '':'' \<notin> set a \<Longrightarrow> assetPrefix a = a"
  by (simp add: assetPrefix_def takeWhile_absent)

lemma hd_SplitN2: "hd (SplitN2 s sep) = takeWhile (\<lambda>c. c \<noteq> sep) s"
  by (simp add: SplitN2_def takeWhile_absent)

lemma SplitN2_first: "SplitN2 a (CHR '':'') ! 0 = assetPrefix a"
  by (simp add: SplitN2_colon assetPrefix_no_colon)

lemma SplitN2_length: "length (SplitN2 a (CHR '':'')) = (if CHR '':'' \<in> set a then 2 else 1)"
  by (simp add: SplitN2_colon)

lemma SplitN2_second: "CHR '':'' \<in> set a \<Longrightarrow> SplitN2 a (CHR '':'') ! Suc 0 = assetRest a"
  by (simp add: SplitN2_colon)

lemma txChainLabel_derived:
  "txChainLabel findTok assetID =
     explorerChainName
       (case findTok assetID of
          Some t \<Rightarrow> if ChainName t \<noteq> [] then ChainName t else assetPrefix assetID
        | None \<Rightarrow> assetPrefix assetID)"
  by (simp add: txChainLabel_def Let_def SplitN2_first SplitN2_length split: option.splits)

lemma txTokenLabel_derived:
  "txTokenLabel findTok assetID =
     (let derived =
        (if CHR '':'' \<notin> set assetID then ToUpper assetID
         else if ToUpper (assetPrefix assetID) \<noteq> ''NEP141'' then ToUpper (assetPrefix assetID)
         else ToUpper (takeWhile (\<lambda>c. c \<noteq> CHR ''.'') (assetRest assetID)))
      in case findTok assetID of
           Some t \<Rightarrow> if Ticker t \<noteq> [] then Ticker t else derived
         | None \<Rightarrow> derived)"
  by (simp add: txTokenLabel_def Let_def SplitN2_first SplitN2_length SplitN2_second hd_SplitN2
           split: option.splits)

lemma txTokenLabel_tron_usdt: "txTokenLabel exampleTokens ''tron:usdt'' = ''TRON''"
  by code_simp

text \<open>
  C8, as the code has it. The chain label is the display name, by \<open>explorerChainName\<close>,
  of the chain name of the known token, when the token is known and that name is not
  empty, and of the prefix of the identifier before the first colon otherwise (of the
  whole identifier when it has no colon); \<open>explorerChainName\<close> looks the lower-cased code
  up in its table and falls back to the upper-cased code. The token label is the ticker
  of the known token, when the token is known and the ticker is not empty; otherwise it
  is the upper-cased prefix, which is not looked up in the table of chains, except that
  behind the prefix \<open>nep141\<close> it is the upper-cased text between the colon and the first
  dot after it; an identifier without a colon is upper-cased as a whole.
\<close>

theorem labels_derivation:
  "txChainLabel findTok assetID =
     explorerChainName
       (case findTok assetID of
          Some t \<Rightarrow> if ChainName t \<noteq> [] then ChainName t else assetPrefix assetID
        | None \<Rightarrow> assetPrefix assetID) \<and>
   explorerChainName code =
     (case map_of chainNames (ToLower code) of Some dn \<Rightarrow> dn | None \<Rightarrow> ToUpper code) \<and>
   txTokenLabel findTok assetID =
     (let derived =
        (if CHR '':'' \<notin> set assetID then ToUpper assetID
         else if ToUpper (assetPrefix assetID) \<noteq> ''NEP141'' then ToUpper (assetPrefix assetID)
         else ToUpper (takeWhile (\<lambda>c. c \<noteq> CHR ''.'') (assetRest assetID)))
      in case findTok assetID of
           Some t \<Rightarrow> if Ticker t \<noteq> [] then Ticker t else derived
         | None \<Rightarrow> derived)"
  using txChainLabel_derived [of findTok assetID] txTokenLabel_derived [of findTok assetID]
  by (simp add: explorerChainName_def)

text \<open>An unknown token on NEAR: the chain is NEAR, the token is the text before the dot.\<close>

theorem labels_derivation_witness:
  "txChainLabel exampleTokens ''nep141:wrap.near'' = ''NEAR'' \<and>
   txTokenLabel exampleTokens ''nep141:wrap.near'' = ''WRAP''"
proof -
  have t: "exampleTokens ''nep141:wrap.near'' = None"
    by (simp add: exampleTokens_def)
  have p: "assetPrefix ''nep141:wrap.near'' = ''nep141''"
    and r: "assetRest ''nep141:wrap.near'' = ''wrap.near''"
    by (simp_all add: assetPrefix_def assetRest_def)
  have u: "ToUpper ''nep141'' = ''NEP141''" and w: "ToUpper ''wrap'' = ''WRAP''"
    and n: "explorerChainName ''nep141'' = ''NEAR''"
    by code_simp+
  from labels_derivation [of exampleTokens "''nep141:wrap.near''" "''nep141''"]
  show ?thesis
    by (simp add: t p r u w n Let_def)
qed

text \<open>
  C8, as the claim has it, fails for token labels: the prefix \<open>eth\<close> is in the table of
  chains, with the name Ethereum, and the token label of \<open>eth:0xabc\<close> is ETH.
\<close>

theorem txTokenLabel_chain_table_counterexample:
  "txTokenLabel (\<lambda>a. None) ''eth:0xabc'' = ''ETH'' \<and>
   explorerChainName (assetPrefix ''eth:0xabc'') = ''Ethereum''"
  by (simp add: txTokenLabel_def SplitN2_def ToUpper_def upperByte_def explorerChainName_def
        assetPrefix_def ToLower_def lowerByte_def chainNames_def)

section \<open>The filter of the log page\<close>

lemma hasHash_iff: "hasHash q hs \<longleftrightarrow> (\<exists>h \<in> set hs. sublist q (ToLower h))"
  by (induction hs) (auto simp: Contains_def)

lemma logFilter_iff:
  "logFilter findTok filterReseller query e \<longleftrightarrow>
     (filterReseller = [] \<or> EqualFold (Reseller e) filterReseller) \<and>
     (query = [] \<or> (\<exists>s \<in> set (searchedTexts findTok e). sublist (ToLower query) (ToLower s)))"
  by (auto simp: logFilter_def Let_def searchedTexts_def hasHash_iff Contains_def)

lemma lowerByte_upperByte: "lowerByte (upperByte c) = lowerByte c"
  by (simp add: lowerByte_def upperByte_def)

lemma ToLower_ToUpper: "ToLower (ToUpper s) = ToLower s"
  by (simp add: ToLower_def ToUpper_def lowerByte_upperByte)

lemma ToUpper_empty: "ToUpper s = [] \<longleftrightarrow> s = []"
  by (simp add: ToUpper_def)

text \<open>The case of the letters of the query does not matter.\<close>

lemma logFilter_query_case:
  "logFilter findTok filterReseller (ToUpper query) e = logFilter findTok filterReseller query e"
  by (simp add: logFilter_def Let_def ToLower_ToUpper ToUpper_empty)

text \<open>
  C3, as the code has it. An entry passes the filter when the reseller parameter is empty
  or equal to the reseller of the entry up to case, and the query, trimmed, is empty or
  occurs, both sides lower-cased, in the recipient, the deposit address, the token label
  of the origin or of the destination asset, the reseller name, or one of the NEAR
  transaction hashes. Chain labels and the hashes of the origin and destination chains
  are not searched.
\<close>

theorem handleWrapperLogs_filter_matches:
  "handleWrapperLogs_filter findTok q_param reseller_param e \<longleftrightarrow>
     (reseller_param = [] \<or> EqualFold (Reseller e) reseller_param) \<and>
     (TrimSpace q_param = [] \<or>
      (\<exists>s \<in> set [Recipient (Tx e), DepositAddress (Tx e),
                    txTokenLabel findTok (OriginAsset (Tx e)),
                    txTokenLabel findTok (DestinationAsset (Tx e)), Reseller e]
                 \<union> set (NearTxHashes (Tx e)).
         sublist (ToLower (TrimSpace q_param)) (ToLower s)))"
  using logFilter_iff [of findTok reseller_param "TrimSpace q_param" e]
  by (simp add: handleWrapperLogs_filter_def searchedTexts_def)

text \<open>
  The query TRON finds the entry whose destination asset has the token label TRON, and
  does not find the entry whose assets are on Ethereum.
\<close>

theorem handleWrapperLogs_filter_matches_witness:
  "txTokenLabel exampleTokens (DestinationAsset (Tx tronEntry)) = ''TRON'' \<and>
   handleWrapperLogs_filter exampleTokens '' TRON '' [] tronEntry \<and>
   txChainLabel exampleTokens (DestinationAsset (Tx ethereumEntry)) = ''Ethereum'' \<and>
   \<not> handleWrapperLogs_filter exampleTokens '' TRON '' [] ethereumEntry"
proof -
  have t: "TrimSpace '' TRON '' = ''TRON''" and q: "ToLower ''TRON'' = ''tron''"
    by code_simp+
  have l: "txTokenLabel exampleTokens (DestinationAsset (Tx tronEntry)) = ''TRON''"
    by (simp add: tronEntry_def feeExampleTx_def txTokenLabel_tron_usdt)
  have s: "sublist ''tron'' ''tron''"
    by simp
  have c: "txChainLabel exampleTokens (DestinationAsset (Tx ethereumEntry)) = ''Ethereum''"
    by code_simp
  have n: "\<not> (\<exists>s \<in> set [Recipient (Tx ethereumEntry), DepositAddress (Tx ethereumEntry),
                    txTokenLabel exampleTokens (OriginAsset (Tx ethereumEntry)),
                    txTokenLabel exampleTokens (DestinationAsset (Tx ethereumEntry)),
                    Reseller ethereumEntry]
                 \<union> set (NearTxHashes (Tx ethereumEntry)). sublist ''tron'' (ToLower s))"
    by code_simp
  have "handleWrapperLogs_filter exampleTokens '' TRON '' [] tronEntry"
    using handleWrapperLogs_filter_matches [of exampleTokens "'' TRON ''" "[]" tronEntry] l s
    by (simp only: t q) (simp add: q)
  moreover have "\<not> handleWrapperLogs_filter exampleTokens '' TRON '' [] ethereumEntry"
    using handleWrapperLogs_filter_matches [of exampleTokens "'' TRON ''" "[]" ethereumEntry] n
    by (simp only: t q) (simp add: q)
  ultimately show ?thesis using l c by simp
qed

text \<open>
  C3, as the claim has it, fails twice. The destination of the first entry is USDT on
  TRON, a known token: its chain label is TRON, and the query TRON does not find the
  entry. The second entry records the hash \<open>0xfeed\<close> of the origin chain, and the query
  \<open>0xfeed\<close> does not find it.
\<close>

theorem handleWrapperLogs_filter_counterexample:
  "txChainLabel exampleTokens (DestinationAsset (Tx knownTronEntry)) = ''TRON'' \<and>
   \<not> handleWrapperLogs_filter exampleTokens ''TRON'' [] knownTronEntry \<and>
   OriginChainTxHashes (Tx originHashEntry) = [''0xfeed''] \<and>
   \<not> handleWrapperLogs_filter exampleTokens ''0xfeed'' [] originHashEntry"
  by code_simp

section \<open>Time stamps on the card\<close>












section \<open>The description of the main chat\<close>

lemma Contains_byte: "Contains s [c] \<longleftrightarrow> c \<in> set s"
  by (auto simp: Contains_def sublist_def in_set_conv_decomp)

lemma updateMainChatDescription_Some:
  "updateMainChatDescription chatID token totalText chat = Some newDesc \<longleftrightarrow>
     chatID \<noteq> 0 \<and> token \<noteq> [] \<and>
     (\<exists>desc. chat = Inr (Inr desc) \<and> CHR ''$'' \<in> set desc \<and>
             newDesc = Replace1 desc (CHR ''$'') totalText)"
  by (auto simp: updateMainChatDescription_def Contains_byte split: sum.splits)

text \<open>Without a \<open>$\<close> in the description nothing is sent and the description stays.\<close>

lemma descriptionAfterUpdate_no_placeholder:
  "CHR ''$'' \<notin> set desc \<Longrightarrow> descriptionAfterUpdate chatID token totalText desc = desc"
  by (simp add: descriptionAfterUpdate_def updateMainChatDescription_def Contains_byte)

lemma length_Replace1:
  assumes "c \<in> set s"
  shows "length (Replace1 s c new) + 1 = length s + length new"
proof -
  define t where "t = takeWhile (\<lambda>x. x \<noteq> c) s"
  define d where "d = dropWhile (\<lambda>x. x \<noteq> c) s"
  have "d \<noteq> []" using assms by (simp add: d_def)
  then obtain x xs where d: "d = x # xs" by (cases d) auto
  have "s = t @ d" by (simp add: t_def d_def)
  then have "length s = length t + length xs + 1" by (simp add: d)
  moreover have "Replace1 s c new = t @ new @ xs"
    using assms d by (simp add: Replace1_def t_def d_def)
  ultimately show ?thesis by simp
qed

lemma set_Replace1: "c \<in> set s \<Longrightarrow> set new \<subseteq> set (Replace1 s c new)"
  by (auto simp: Replace1_def)

text \<open>
  When the text of the total itself has a \<open>$\<close> in it and more besides, a second call
  changes the description again.
\<close>

lemma descriptionAfterUpdate_twice:
  assumes "chatID \<noteq> 0" "token \<noteq> []" "CHR ''$'' \<in> set desc" "CHR ''$'' \<in> set totalText"
    "totalText \<noteq> ''$''"
  shows "descriptionAfterUpdate chatID token totalText
           (descriptionAfterUpdate chatID token totalText desc) \<noteq>
         descriptionAfterUpdate chatID token totalText desc"
proof -
  let ?d1 = "Replace1 desc (CHR ''$'') totalText"
  have one: "descriptionAfterUpdate chatID token totalText desc = ?d1"
    using assms(1-3)
    by (auto simp: descriptionAfterUpdate_def updateMainChatDescription_def Contains_byte)
  have in1: "CHR ''$'' \<in> set ?d1"
    using set_Replace1 [OF assms(3), of totalText] assms(4) by blast
  then have two: "descriptionAfterUpdate chatID token totalText ?d1 = Replace1 ?d1 (CHR ''$'') totalText"
    using assms(1,2)
    by (auto simp: descriptionAfterUpdate_def updateMainChatDescription_def Contains_byte)
  have "2 \<le> length totalText"
    using assms(4,5) by (cases totalText; cases "tl totalText") auto
  with length_Replace1 [OF in1, of totalText]
  have "length (Replace1 ?d1 (CHR ''$'') totalText) \<noteq> length ?d1" by simp
  then show ?thesis
    unfolding one two by auto
qed

text \<open>
  C6, at the input where the code parts from the claim. The description \<open>Total: $\<close>
  becomes \<open>Total: $12.50\<close> with the first call; it still has a \<open>$\<close>, and the second call
  makes it \<open>Total: $12.5012.50\<close>.
\<close>

theorem updateMainChatDescription_repeated:
  "descriptionAfterUpdate (- 1001234567890) ''123:abc'' ''$12.50'' ''Total: $'' = ''Total: $12.50'' \<and>
   descriptionAfterUpdate (- 1001234567890) ''123:abc'' ''$12.50'' ''Total: $12.50'' =
     ''Total: $12.5012.50''"
  by (simp add: descriptionAfterUpdate_def updateMainChatDescription_def Contains_byte Replace1_def)

section \<open>The log buffer\<close>

lemma collect_take_filter: "collect n p es = take n (filter p es)"
  by (induction n p es rule: collect.induct) simp_all

lemma capacity_foldl_append [simp]:
  "capacity (foldl LogBuffer_append b xs) = capacity b"
  by (induction xs arbitrary: b) (simp_all add: LogBuffer_append_def)

lemma entries_foldl_append:
  "0 < capacity b \<Longrightarrow> length (entries b) \<le> capacity b \<Longrightarrow>
   entries (foldl LogBuffer_append b xs) =
     drop (length (entries b) + length xs - capacity b) (entries b @ xs)"
proof (induction xs arbitrary: b)
  case Nil
  then show ?case by simp
next
  case (Cons x xs)
  show ?case
  proof (cases "capacity b \<le> length (entries b)")
    case True
    with Cons.prems have full: "length (entries b) = capacity b" by simp
    with Cons.prems obtain e es where es: "entries b = e # es" by (cases "entries b") auto
    let ?b = "LogBuffer_append b x"
    have b': "entries ?b = es @ [x]" "capacity ?b = capacity b"
      using True es by (simp_all add: LogBuffer_append_def)
    with full es have "length (entries ?b) \<le> capacity ?b" "0 < capacity ?b"
      using Cons.prems by simp_all
    from Cons.IH [OF this(2) this(1)]
    have "entries (foldl LogBuffer_append ?b xs) =
            drop (length (es @ [x]) + length xs - capacity b) ((es @ [x]) @ xs)"
      by (simp only: b')
    moreover have c: "capacity b = Suc (length es)"
      using full es by simp
    ultimately show ?thesis
      by (simp add: es c)
  next
    case False
    let ?b = "LogBuffer_append b x"
    have b': "entries ?b = entries b @ [x]" "capacity ?b = capacity b"
      using False by (simp_all add: LogBuffer_append_def)
    with False have "length (entries ?b) \<le> capacity ?b" "0 < capacity ?b"
      using Cons.prems by simp_all
    from Cons.IH [OF this(2) this(1)]
    have "entries (foldl LogBuffer_append ?b xs) =
            drop (length (entries b @ [x]) + length xs - capacity b) ((entries b @ [x]) @ xs)"
      by (simp only: b')
    then show ?thesis by simp
  qed
qed

text \<open>
  C7. Into an empty buffer of capacity \<open>cap > 0\<close>, \<open>cap + k\<close> entries are appended,
  \<open>k > 0\<close>. A snapshot with a limit of at least \<open>cap\<close> and a predicate that holds of
  every entry returns the last \<open>cap\<close> entries appended, the newest first: these are
  \<open>cap\<close> entries, and when the entries appended differ from one another, none of the
  first \<open>k\<close> is among them.
\<close>

theorem LogBuffer_overflow:
  assumes "0 < cap" and "length xs = cap + k" and "0 < k" and "cap \<le> limit"
  shows "LogBuffer_snapshot (foldl LogBuffer_append (newLogBuffer cap) xs) limit (\<lambda>e. True) =
           rev (drop k xs) \<and>
         length (LogBuffer_snapshot (foldl LogBuffer_append (newLogBuffer cap) xs) limit (\<lambda>e. True)) =
           cap \<and>
         (distinct xs \<longrightarrow>
            set (take k xs) \<inter>
            set (LogBuffer_snapshot (foldl LogBuffer_append (newLogBuffer cap) xs) limit (\<lambda>e. True)) =
            {})"
proof -
  have e: "entries (foldl LogBuffer_append (newLogBuffer cap) xs) = drop k xs"
    using entries_foldl_append [of "newLogBuffer cap" xs] assms(1,2)
    by (simp add: newLogBuffer_def)
  have s: "LogBuffer_snapshot (foldl LogBuffer_append (newLogBuffer cap) xs) limit (\<lambda>e. True) =
           rev (drop k xs)"
    using assms(2,4) by (simp add: LogBuffer_snapshot_def collect_take_filter e)
  have d: "distinct xs \<Longrightarrow> set (take k xs) \<inter> set (drop k xs) = {}"
    by (metis append_take_drop_id distinct_append)
  from s d assms(2) show ?thesis by simp
qed

text \<open>Capacity 3 and five entries: the snapshot is 5, 4, 3.\<close>

theorem LogBuffer_overflow_witness:
  "LogBuffer_snapshot (foldl LogBuffer_append (newLogBuffer 3) [1, 2, 3, 4, 5 :: nat]) 500 (\<lambda>e. True) =
     [5, 4, 3] \<and>
   set (take 2 [1, 2, 3, 4, 5 :: nat]) \<inter>
   set (LogBuffer_snapshot (foldl LogBuffer_append (newLogBuffer 3) [1, 2, 3, 4, 5 :: nat]) 500 (\<lambda>e. True)) = {}"
  using LogBuffer_overflow [of 3 "[1, 2, 3, 4, 5 :: nat]" 2 500]
  by simp

section \<open>The poller and its cursor\<close>

lemma foldl_commitTx:
  "aggregated (foldl (commitTx name) st txs) = aggregated st @ txs \<and>
   cursor (foldl (commitTx name) st txs) = cursor st \<and>
   logbuf (foldl (commitTx name) st txs) =
     foldl LogBuffer_append (logbuf st) (map (logEntryOf name) txs)"
  by (induction txs arbitrary: st) (simp_all add: commitTx_def)

lemma afterCursor_drop: "afterCursor feed c = drop (cursorPos feed c) feed"
proof (cases c)
  case None
  then show ?thesis by (simp add: afterCursor_def cursorPos_def)
next
  case (Some k)
  let ?t = "length (takeWhile (\<lambda>tx. txKey tx \<noteq> k) feed)"
  have a: "afterCursor feed c = drop (Suc ?t) feed"
    using Some by (simp add: afterCursor_def dropWhile_eq_drop)
  then have "cursorPos feed c = min (Suc ?t) (length feed)"
    by (simp add: cursorPos_def)
  with a show ?thesis by (simp add: min_def)
qed

lemma cursorPos_le: "cursorPos feed c \<le> length feed"
  by (simp add: cursorPos_def)

lemma takeWhile_key_index:
  assumes "distinct (map f xs)" and "i < length xs"
  shows "takeWhile (\<lambda>x. f x \<noteq> f (xs ! i)) xs = take i xs"
proof (rule takeWhile_eq_take_P_nth)
  fix j assume j: "j < i" "j < length xs"
  from assms have "\<forall>a < length xs. \<forall>b < length xs. a \<noteq> b \<longrightarrow> f (xs ! a) \<noteq> f (xs ! b)"
    by (auto simp: distinct_conv_nth)
  with j assms(2) show "f (xs ! j) \<noteq> f (xs ! i)" by auto
next
  show "i < length xs \<Longrightarrow> \<not> f (xs ! i) \<noteq> f (xs ! i)" by simp
qed

lemma cursorPos_at:
  assumes "distinct (map txKey feed)" and "i < length feed"
  shows "cursorPos feed (Some (txKey (feed ! i))) = Suc i"
proof -
  have "afterCursor feed (Some (txKey (feed ! i))) = drop (Suc i) feed"
    using assms by (simp add: afterCursor_def dropWhile_eq_drop takeWhile_key_index)
  with assms(2) show ?thesis by (simp add: cursorPos_def)
qed

lemma page_position:
  assumes "distinct (map txKey feed)" and "fetchPage feed c n \<noteq> []"
  shows "cursorPos feed (Some (txKey (last (fetchPage feed c n)))) =
           cursorPos feed c + length (fetchPage feed c n)"
    and "take (cursorPos feed c + length (fetchPage feed c n)) feed =
           take (cursorPos feed c) feed @ fetchPage feed c n"
proof -
  let ?p = "cursorPos feed c"
  let ?page = "fetchPage feed c n"
  have page: "?page = take n (drop ?p feed)"
    by (simp add: fetchPage_def afterCursor_drop)
  with assms(2) cursorPos_le [of feed c]
  have len: "0 < length ?page" "?p + length ?page \<le> length feed"
    by (auto simp: min_def)
  define m where "m = length ?page - 1"
  have m: "m < length ?page" "?p + m < length feed" "Suc (?p + m) = ?p + length ?page"
    using len unfolding m_def by arith+
  from m(1) have "m < n"
    by (simp add: page)
  then have "?page ! m = feed ! (?p + m)"
    using cursorPos_le [of feed c] by (simp add: page)
  moreover have "last ?page = ?page ! m"
    using assms(2) by (simp add: last_conv_nth m_def)
  ultimately have "txKey (last ?page) = txKey (feed ! (?p + m))"
    by simp
  with cursorPos_at [OF assms(1) m(2)] m(3)
  show "cursorPos feed (Some (txKey (last ?page))) = ?p + length ?page"
    by simp
  have "take (?p + length ?page) feed = take ?p feed @ take (length ?page) (drop ?p feed)"
    by (simp add: take_add)
  also have "take (length ?page) (drop ?p feed) = ?page"
    by (simp add: page min_def)
  finally show "take (?p + length ?page) feed = take ?p feed @ ?page" .
qed

lemma pollPage_cases:
  "pollPage name feed n st FetchFailed = st"
  "pollPage name feed n st (Interrupted j) =
     foldl (commitTx name) st (take j (fetchPage feed (cursor st) n))"
  "pollPage name feed n st (Advanced False) =
     foldl (commitTx name) st (fetchPage feed (cursor st) n)"
  "pollPage name feed n st (Advanced True) =
     (if fetchPage feed (cursor st) n = [] then st
      else (foldl (commitTx name) st (fetchPage feed (cursor st) n))
             \<lparr>cursor := Some (txKey (last (fetchPage feed (cursor st) n)))\<rparr>)"
  by (simp_all add: pollPage_def Let_def)

lemma pollPage_cursor:
  "cursor (pollPage name feed n st out) =
     (if out = Advanced True \<and> fetchPage feed (cursor st) n \<noteq> []
      then Some (txKey (last (fetchPage feed (cursor st) n))) else cursor st)"
  by (cases out) (auto simp: pollPage_def Let_def foldl_commitTx)

lemma pollPage_pos_mono:
  assumes "distinct (map txKey feed)"
  shows "cursorPos feed (cursor st) \<le> cursorPos feed (cursor (pollPage name feed n st out))"
  using page_position(1) [OF assms, of "cursor st" n]
  by (simp add: pollPage_cursor)

lemma pollPage_no_skip:
  assumes "distinct (map txKey feed)"
    and "set (take (cursorPos feed (cursor st)) feed) \<subseteq> set (aggregated st)"
  shows "set (take (cursorPos feed (cursor (pollPage name feed n st out))) feed) \<subseteq>
         set (aggregated (pollPage name feed n st out))"
proof (cases out)
  case FetchFailed
  with assms(2) show ?thesis by (simp add: pollPage_cases)
next
  case (Interrupted j)
  with assms(2) show ?thesis by (auto simp: pollPage_cases foldl_commitTx)
next
  case (Advanced ok)
  show ?thesis
  proof (cases "ok \<and> fetchPage feed (cursor st) n \<noteq> []")
    case True
    with page_position [OF assms(1), of "cursor st" n] assms(2) Advanced
    show ?thesis by (auto simp: pollPage_cases foldl_commitTx)
  next
    case False
    with assms(2) Advanced show ?thesis
      by (cases ok) (auto simp: pollPage_cases foldl_commitTx)
  qed
qed

lemma pollRun_snoc:
  "pollRun name feed n st (outs @ [out]) = pollPage name feed n (pollRun name feed n st outs) out"
  by (simp add: pollRun_def)

lemma pollRun_no_skip:
  assumes "distinct (map txKey feed)"
  shows "set (take (cursorPos feed (cursor (pollRun name feed n (initialState cap) outs))) feed) \<subseteq>
         set (aggregated (pollRun name feed n (initialState cap) outs))"
proof (induction outs rule: rev_induct)
  case Nil
  show ?case by (simp add: pollRun_def initialState_def cursorPos_def afterCursor_def)
next
  case (snoc out outs)
  from pollPage_no_skip [OF assms snoc.IH] show ?case
    by (simp add: pollRun_snoc)
qed


text \<open>
  C1. The keys of the feed differ from one another, and \<open>st\<close> is the state after any
  sequence of page steps from the initial state. Then every transaction of the feed at or
  before the cursor has been aggregated; a further step \<open>out\<close> never moves the cursor
  back; when it moves the cursor, the step was a page whose advance persisted, the whole
  page has been aggregated and appended to the log buffer, and the cursor names the last
  transaction of the page. When the advance fails, the cursor stays, the page has been
  aggregated, the next fetch returns the same page, and a step that then succeeds
  aggregates the same transactions a second time.
\<close>

theorem poller_cursor_after_commit:
  assumes "distinct (map txKey feed)"
  shows "(let st = pollRun name feed n (initialState cap) outs;
              page = fetchPage feed (cursor st) n;
              st' = pollPage name feed n st out;
              failed = pollPage name feed n st (Advanced False)
          in set (take (cursorPos feed (cursor st)) feed) \<subseteq> set (aggregated st) \<and>
             cursorPos feed (cursor st) \<le> cursorPos feed (cursor st') \<and>
             (cursor st' \<noteq> cursor st \<longrightarrow>
                out = Advanced True \<and> page \<noteq> [] \<and>
                aggregated st' = aggregated st @ page \<and>
                logbuf st' = foldl LogBuffer_append (logbuf st) (map (logEntryOf name) page) \<and>
                cursor st' = Some (txKey (last page)) \<and>
                cursorPos feed (cursor st') = cursorPos feed (cursor st) + length page) \<and>
             cursor failed = cursor st \<and>
             fetchPage feed (cursor failed) n = page \<and>
             aggregated failed = aggregated st @ page \<and>
             aggregated (pollPage name feed n failed (Advanced True)) = aggregated st @ page @ page)"
proof -
  define st where "st = pollRun name feed n (initialState cap) outs"
  define page where "page = fetchPage feed (cursor st) n"
  define failed where "failed = pollPage name feed n st (Advanced False)"
  have inv: "set (take (cursorPos feed (cursor st)) feed) \<subseteq> set (aggregated st)"
    unfolding st_def by (rule pollRun_no_skip [OF assms])
  have mono: "cursorPos feed (cursor st) \<le> cursorPos feed (cursor (pollPage name feed n st out))"
    by (rule pollPage_pos_mono [OF assms])
  have adv: "cursor (pollPage name feed n st out) \<noteq> cursor st \<longrightarrow>
      out = Advanced True \<and> page \<noteq> [] \<and>
      aggregated (pollPage name feed n st out) = aggregated st @ page \<and>
      logbuf (pollPage name feed n st out) =
        foldl LogBuffer_append (logbuf st) (map (logEntryOf name) page) \<and>
      cursor (pollPage name feed n st out) = Some (txKey (last page)) \<and>
      cursorPos feed (cursor (pollPage name feed n st out)) =
        cursorPos feed (cursor st) + length page"
  proof
    assume "cursor (pollPage name feed n st out) \<noteq> cursor st"
    then have o: "out = Advanced True" and p: "page \<noteq> []"
      by (auto simp: pollPage_cursor page_def split: if_splits)
    from p have "fetchPage feed (cursor st) n \<noteq> []" by (simp add: page_def)
    from page_position(1) [OF assms this] o p
    show "out = Advanced True \<and> page \<noteq> [] \<and>
      aggregated (pollPage name feed n st out) = aggregated st @ page \<and>
      logbuf (pollPage name feed n st out) =
        foldl LogBuffer_append (logbuf st) (map (logEntryOf name) page) \<and>
      cursor (pollPage name feed n st out) = Some (txKey (last page)) \<and>
      cursorPos feed (cursor (pollPage name feed n st out)) =
        cursorPos feed (cursor st) + length page"
      by (simp add: pollPage_cases foldl_commitTx page_def)
  qed
  have f: "cursor failed = cursor st" "aggregated failed = aggregated st @ page"
    by (simp_all add: failed_def pollPage_cases foldl_commitTx page_def)
  then have again: "fetchPage feed (cursor failed) n = page"
    by (simp add: page_def)
  then have twice: "aggregated (pollPage name feed n failed (Advanced True)) =
      aggregated st @ page @ page"
    using f by (simp add: pollPage_cases foldl_commitTx)
  from inv mono adv f again twice show ?thesis
    unfolding Let_def st_def [symmetric] page_def [symmetric] failed_def [symmetric]
    by blast
qed

lemma exampleFeed_distinct: "distinct (map txKey exampleFeed)"
  by (simp add: exampleFeed_def feedTx_def txKey_def feeExampleTx_def)

lemma exampleFeed_first_page: "fetchPage exampleFeed None 2 = [feedTx ''d1'', feedTx ''d2'']"
  by (simp add: fetchPage_def afterCursor_def exampleFeed_def)

text \<open>
  Pages of two over the feed of three: the advance fails after the first page, the cursor
  is still empty, and the next step aggregates the same two transactions again.
\<close>

theorem poller_cursor_after_commit_witness:
  "distinct (map txKey exampleFeed) \<and>
   cursor (pollRun ''EagleSwap'' exampleFeed 2 (initialState 10) [Advanced False]) = None \<and>
   aggregated (pollRun ''EagleSwap'' exampleFeed 2 (initialState 10) [Advanced False, Advanced True]) =
     [feedTx ''d1'', feedTx ''d2'', feedTx ''d1'', feedTx ''d2'']"
proof -
  have st: "pollRun ''EagleSwap'' exampleFeed 2 (initialState 10) [] = initialState 10"
    by (simp add: pollRun_def)
  have c: "cursor (initialState 10) = None" and a: "aggregated (initialState 10) = []"
    by (simp_all add: initialState_def)
  have r1: "pollRun ''EagleSwap'' exampleFeed 2 (initialState 10) [Advanced False] =
      pollPage ''EagleSwap'' exampleFeed 2 (initialState 10) (Advanced False)"
    and r2: "pollRun ''EagleSwap'' exampleFeed 2 (initialState 10) [Advanced False, Advanced True] =
      pollPage ''EagleSwap'' exampleFeed 2
        (pollPage ''EagleSwap'' exampleFeed 2 (initialState 10) (Advanced False)) (Advanced True)"
    by (simp_all add: pollRun_def)
  from poller_cursor_after_commit [OF exampleFeed_distinct, of "''EagleSwap''" 2 10 "[]" FetchFailed]
  have "cursor (pollPage ''EagleSwap'' exampleFeed 2 (initialState 10) (Advanced False)) = None \<and>
        aggregated (pollPage ''EagleSwap'' exampleFeed 2
          (pollPage ''EagleSwap'' exampleFeed 2 (initialState 10) (Advanced False)) (Advanced True)) =
        [feedTx ''d1'', feedTx ''d2'', feedTx ''d1'', feedTx ''d2'']"
    by (simp add: Let_def st c a exampleFeed_first_page)
  with exampleFeed_distinct show ?thesis
    by (simp only: r1 r2)
qed

end
